theory Spec2Isabelle
  imports Main "HOL-Library.AList" "HOL-Library.Multiset"
begin

section \<open>JavaScript values that reach the code\<close>

text \<open>
  The TypeScript annotations say \<open>string\<close>, but two expressions of the program can
  yield something else at run time: a destructured array element that does not exist is
  \<open>undefined\<close>, and a property read on an object literal falls through to
  \<open>Object.prototype\<close>. Both are kept as values, so that what the code does with
  them stays visible. Console output is left out of the model, except for the upload
  progress of section \<open>gofileUpload.ts\<close>.
\<close>

datatype jsval =
    Undefined
  | Str string
  | Fn string      \<comment> \<open>a native function, by name\<close>
  | ObjProto       \<comment> \<open>the object \<open>Object.prototype\<close>\<close>

text \<open>Conversion to text, as a template literal does it.\<close>

fun to_str :: "jsval \<Rightarrow> string" where
  "to_str Undefined = ''undefined''"
| "to_str (Str s) = s"
| "to_str (Fn n) = ''function '' @ n @ ''() { [native code] }''"
| "to_str ObjProto = ''[object Object]''"

text \<open>Truthiness, as \<open>||\<close> tests it.\<close>

fun truthy :: "jsval \<Rightarrow> bool" where
  "truthy Undefined = False"
| "truthy (Str s) = (s \<noteq> [])"
| "truthy (Fn n) = True"
| "truthy ObjProto = True"

text \<open>Whether a value is a string, the only kind here that has a method \<open>split\<close>.\<close>

fun is_Str :: "jsval \<Rightarrow> bool" where
  "is_Str (Str s) = True"
| "is_Str v = False"

text \<open>\<open>s.split(c)\<close> for a one-character separator: never an empty array.\<close>

fun split_chr :: "char \<Rightarrow> string \<Rightarrow> string list" where
  "split_chr c [] = [[]]"
| "split_chr c (x # xs) =
     (if x = c then [] # split_chr c xs
      else (case split_chr c xs of
              [] \<Rightarrow> [[x]]
            | w # ws \<Rightarrow> (x # w) # ws))"

text \<open>Reading element \<open>i\<close> of an array of strings: \<open>undefined\<close> past the end.\<close>

definition elem :: "string list \<Rightarrow> nat \<Rightarrow> jsval" where
  "elem xs i = (if i < length xs then Str (xs ! i) else Undefined)"

text \<open>A thrown or rejected \<open>Error\<close>, by its message.\<close>

datatype error = Error string

section \<open>modelTransformer.ts\<close>

text \<open>The own properties of the object literal \<open>MODEL_TRANSFORMATIONS\<close>.\<close>

definition MODEL_TRANSFORMATIONS :: "(string \<times> string) list" where
  "MODEL_TRANSFORMATIONS =
     [(''s906b'', ''s916b''),
      (''S906B'', ''S916B''),
      (''SM-S906B'', ''SM-S916B''),
      (''sm-s906b'', ''sm-s916b'')]"

text \<open>
  The literal is an ordinary object, so its prototype is \<open>Object.prototype\<close>, whose
  properties a bracket read finds when the object has no own property of that name.
\<close>

definition Object_prototype :: "(string \<times> jsval) list" where
  "Object_prototype =
     [(''constructor'', Fn ''Object''),
      (''__defineGetter__'', Fn ''__defineGetter__''),
      (''__defineSetter__'', Fn ''__defineSetter__''),
      (''hasOwnProperty'', Fn ''hasOwnProperty''),
      (''__lookupGetter__'', Fn ''__lookupGetter__''),
      (''__lookupSetter__'', Fn ''__lookupSetter__''),
      (''isPrototypeOf'', Fn ''isPrototypeOf''),
      (''propertyIsEnumerable'', Fn ''propertyIsEnumerable''),
      (''toString'', Fn ''toString''),
      (''valueOf'', Fn ''valueOf''),
      (''__proto__'', ObjProto),
      (''toLocaleString'', Fn ''toLocaleString'')]"

text \<open>\<open>MODEL_TRANSFORMATIONS[key]\<close>: own property, then the prototype, then \<open>undefined\<close>.\<close>

definition get_property :: "string \<Rightarrow> jsval" where
  "get_property key =
     (case map_of MODEL_TRANSFORMATIONS key of
        Some v \<Rightarrow> Str v
      | None \<Rightarrow> (case map_of Object_prototype key of
                   Some v \<Rightarrow> v
                 | None \<Rightarrow> Undefined))"

record model_info =
  original :: string
  transformed :: jsval
  wasTransformed :: bool

definition transformModel :: "string \<Rightarrow> model_info" where
  "transformModel originalModel =
     (let looked = get_property originalModel;
          transformed = (if truthy looked then looked else Str originalModel);
          wasTransformed = (transformed \<noteq> Str originalModel)
      in \<lparr>original = originalModel,
          transformed = transformed,
          wasTransformed = wasTransformed\<rparr>)"

section \<open>index.ts: the version manifest\<close>

record version_triple =
  pda :: jsval
  csc :: jsval
  modem :: jsval

text \<open>The destructuring \<open>[pda, csc, modem] = latest.split("/")\<close>.\<close>

definition parse_latest :: "string \<Rightarrow> version_triple" where
  "parse_latest latest =
     (let parts = split_chr (CHR ''/'') latest
      in \<lparr>pda = elem parts 0, csc = elem parts 1, modem = elem parts 2\<rparr>)"

definition version_url :: "string \<Rightarrow> jsval \<Rightarrow> string" where
  "version_url region model =
     ''https://fota-cloud-dn.ospserver.net/firmware/'' @ region @ ''/'' @ to_str model
       @ ''/version.xml''"

text \<open>
  The manifest server is the environment: \<open>fetch\<close> maps the requested URL to the text of
  the document's \<open>versioninfo.firmware.version.latest\<close> field, or to the error the
  request or the property chain ends with.
\<close>

definition getLatestVersion ::
  "(string \<Rightarrow> error + string) \<Rightarrow> string \<Rightarrow> jsval \<Rightarrow> error + version_triple" where
  "getLatestVersion fetch region model =
     (case fetch (version_url region model) of
        Inl e \<Rightarrow> Inl e
      | Inr latest \<Rightarrow> Inr (parse_latest latest))"

text \<open>The version argument of the BinaryInform request (index.ts, line 112).\<close>

definition inform_version :: "version_triple \<Rightarrow> string" where
  "inform_version v =
     to_str (pda v) @ ''/'' @ to_str (csc v) @ ''/''
       @ to_str (if modem v \<noteq> Str [] then modem v else pda v) @ ''/'' @ to_str (pda v)"

section \<open>index.ts: the session headers\<close>

record nonce_state =
  encrypted :: string
  decrypted :: string

text \<open>The response headers the program reads: \<open>nonce\<close> and the \<open>set-cookie\<close> array.\<close>

record response_headers =
  nonce_header :: "string option"
  set_cookie :: "string list option"

text \<open>
  Modelled from the spec: \<open>handleAuthRotation\<close> lives in \<open>utils/authUtils\<close>, which
  is not among the sources. The model takes the function as a parameter; of its result it
  keeps what \<open>handleHeaders\<close> destructures, the new \<open>Authorization\<close> value and an
  object \<open>nonce\<close>, which holds the encrypted and the decrypted nonce and which
  \<open>Object.assign\<close> copies over the session's.
\<close>

record rotation =
  Authorization :: string
  new_nonce :: nonce_state

text \<open>The closure variables \<open>nonce\<close> and \<open>headers\<close> of \<open>main\<close>, as one state.\<close>

record session =
  nonce :: nonce_state
  headers :: "(string \<times> string) list"

definition handleHeaders ::
  "(response_headers \<Rightarrow> rotation) \<Rightarrow> response_headers \<Rightarrow> session \<Rightarrow> session" where
  "handleHeaders handleAuthRotation responseHeaders s =
     (let s1 = (if nonce_header responseHeaders \<noteq> None
                then (let r = handleAuthRotation responseHeaders
                      in s\<lparr>nonce := new_nonce r,
                           headers := AList.update ''Authorization'' (Authorization r) (headers s)\<rparr>)
                else s);
          sessionID =
            (case set_cookie responseHeaders of
               None \<Rightarrow> None
             | Some cookies \<Rightarrow>
                 (case find (\<lambda>cookie. take 10 cookie = ''JSESSIONID'') cookies of
                    None \<Rightarrow> None
                  | Some cookie \<Rightarrow>
                      (case split_chr (CHR '';'') cookie of
                         [] \<Rightarrow> None
                       | w # ws \<Rightarrow> Some w)))
      in (case sessionID of
            None \<Rightarrow> s1
          | Some sid \<Rightarrow> s1\<lparr>headers := AList.update ''Cookie'' sid (headers s1)\<rparr>))"

section \<open>index.ts: the download pipeline\<close>

text \<open>
  What the handlers of lines 200 to 217 observe, in order: a chunk of the response body
  (its length), an archive entry announced by the parser, the write stream of an entry
  finishing, and an \<open>error\<close> event of one of the streams. No handler is attached for the
  last, so Node throws it and the process dies. The end of the list is the end of the
  stream.
\<close>

datatype stream_event =
    Data nat
  | Entry string
  | Finish string
  | Fault string

record pipeline_state =
  downloadedSize :: int
  currentFile :: string
  written :: "string list"

datatype ending =
    Exited            \<comment> \<open>\<open>process.exit()\<close> was called\<close>
  | Drained           \<comment> \<open>the events ran out; nothing was reported\<close>
  | Crashed string    \<comment> \<open>an unhandled \<open>error\<close> event\<close>

fun pipeline :: "int \<Rightarrow> pipeline_state \<Rightarrow> stream_event list \<Rightarrow> ending \<times> pipeline_state" where
  "pipeline binaryByteSize st [] = (Drained, st)"
| "pipeline binaryByteSize st (Data n # es) =
     pipeline binaryByteSize (st\<lparr>downloadedSize := downloadedSize st + int n\<rparr>) es"
| "pipeline binaryByteSize st (Entry p # es) =
     pipeline binaryByteSize (st\<lparr>currentFile := take 18 p @ ''...''\<rparr>) es"
| "pipeline binaryByteSize st (Finish p # es) =
     (let st' = st\<lparr>written := written st @ [p]\<rparr>
      in if downloadedSize st' = binaryByteSize then (Exited, st')
         else pipeline binaryByteSize st' es)"
| "pipeline binaryByteSize st (Fault m # es) = (Crashed m, st)"

definition pipeline_start :: pipeline_state where
  "pipeline_start = \<lparr>downloadedSize = 0, currentFile = [], written = []\<rparr>"

text \<open>The bytes a list of events carries, the entries it finishes, and whether it is free of errors.\<close>

fun received :: "stream_event list \<Rightarrow> int" where
  "received [] = 0"
| "received (Data n # es) = int n + received es"
| "received (e # es) = received es"

fun finished :: "stream_event list \<Rightarrow> string list" where
  "finished [] = []"
| "finished (Finish p # es) = p # finished es"
| "finished (e # es) = finished es"

fun no_fault :: "stream_event list \<Rightarrow> bool" where
  "no_fault [] = True"
| "no_fault (Fault m # es) = False"
| "no_fault (e # es) = no_fault es"

section \<open>index.ts: main\<close>

record binary_info =
  binaryByteSize :: int
  binaryDescription :: jsval
  binaryFilename :: string
  binaryLogicValue :: string
  binaryModelPath :: string
  binaryOSVersion :: string
  binaryVersion :: string

text \<open>
  A response of the distribution service: its headers, and the fields \<open>main\<close> reads from
  the parsed body (\<open>None\<close> when the body lacks them, where the property chain throws).
  The description is kept as a value, since \<open>main\<close> calls \<open>split\<close> on it, which
  only a string has.
\<close>

record reply =
  reply_headers :: response_headers
  reply_info :: "binary_info option"

datatype request =
    Get string "(string \<times> string) list"
  | Post string string "(string \<times> string) list"

text \<open>
  The functions of \<open>utils/authUtils\<close> and \<open>utils/msgUtils\<close>, which are not among the
  sources, are parameters of the model. The decryption key is a sequence of bytes.
\<close>

record collaborators =
  handleAuthRotation :: "response_headers \<Rightarrow> rotation"
  getBinaryInformMsg :: "string \<Rightarrow> string \<Rightarrow> jsval \<Rightarrow> string \<Rightarrow> string"
  getBinaryInitMsg :: "string \<Rightarrow> string \<Rightarrow> string"
  getDecryptionKey :: "string \<Rightarrow> string \<Rightarrow> string"

text \<open>
  The servers: the manifest, the three POST endpoints (answering a request), and the
  binary download (answering a request, and read through the decipher of the given key
  and the archive parser, as a list of events).
\<close>

record network =
  fetch_manifest :: "string \<Rightarrow> error + string"
  post :: "request \<Rightarrow> error + reply"
  download :: "request \<Rightarrow> string \<Rightarrow> error + stream_event list"

record run =
  outputFolder :: string
  run_ending :: ending
  run_state :: pipeline_state

definition nonce_request :: request where
  "nonce_request =
     Post ''https://neofussvr.sslcs.cdngc.net/NF_DownloadGenerateNonce.do'' []
       [(''Authorization'',
         ''FUS nonce='' @ [CHR 0x22, CHR 0x22] @ '', signature='' @ [CHR 0x22, CHR 0x22]
           @ '', nc='' @ [CHR 0x22, CHR 0x22] @ '', type='' @ [CHR 0x22, CHR 0x22]
           @ '', realm='' @ [CHR 0x22, CHR 0x22] @ '', newauth='' @ [CHR 0x22] @ ''1''
           @ [CHR 0x22]),
        (''User-Agent'', ''Kies2.0_FUS''),
        (''Accept'', ''application/xml'')]"

definition xml_headers :: "(string \<times> string) list \<Rightarrow> (string \<times> string) list" where
  "xml_headers hs =
     AList.update ''Content-Type'' ''application/xml''
       (AList.update ''Accept'' ''application/xml'' hs)"

definition inform_request :: "collaborators \<Rightarrow> version_triple \<Rightarrow> string \<Rightarrow> jsval \<Rightarrow> session \<Rightarrow> request" where
  "inform_request c v region processedModel s =
     Post ''https://neofussvr.sslcs.cdngc.net/NF_DownloadBinaryInform.do''
       (getBinaryInformMsg c (inform_version v) region processedModel (decrypted (nonce s)))
       (xml_headers (headers s))"

definition init_request :: "collaborators \<Rightarrow> binary_info \<Rightarrow> session \<Rightarrow> request" where
  "init_request c b s =
     Post ''https://neofussvr.sslcs.cdngc.net/NF_DownloadBinaryInitForMass.do''
       (getBinaryInitMsg c (binaryFilename b) (decrypted (nonce s)))
       (xml_headers (headers s))"

definition binary_request :: "binary_info \<Rightarrow> session \<Rightarrow> request" where
  "binary_request b s =
     Get (''http://cloud-neofussvr.sslcs.cdngc.net/NF_DownloadBinaryForMass.do?file=''
            @ binaryModelPath b @ binaryFilename b)
       (headers s)"

text \<open>
  \<open>main\<close> returns the requests it sent, in order, and either the error that rejected it
  or the run of the pipeline. \<open>cwd\<close> is \<open>process.cwd()\<close>. Besides the requests, two
  steps can throw: \<open>binaryDescription.split\<close> (line 150) when the description is not a
  string, and \<open>crypto.createDecipheriv\<close> (line 171) when the key of \<open>aes-128-ecb\<close> is
  not 16 bytes long.
\<close>

definition main ::
  "collaborators \<Rightarrow> network \<Rightarrow> string \<Rightarrow> string \<Rightarrow> string \<Rightarrow> request list \<times> (error + run)" where
  "main c net cwd region model =
     (let modelInfo = transformModel model;
          processedModel = transformed modelInfo;
          r0 = Get (version_url region processedModel) []
      in case getLatestVersion (fetch_manifest net) region processedModel of
           Inl e \<Rightarrow> ([r0], Inl e)
         | Inr v \<Rightarrow>
      (let s0 = \<lparr>nonce = \<lparr>encrypted = [], decrypted = []\<rparr>,
                 headers = [(''User-Agent'', ''Kies2.0_FUS'')]\<rparr>;
           r1 = nonce_request
       in case post net r1 of
            Inl e \<Rightarrow> ([r0, r1], Inl e)
          | Inr rep1 \<Rightarrow>
      (let s1 = handleHeaders (handleAuthRotation c) (reply_headers rep1) s0;
           r2 = inform_request c v region processedModel s1
       in case post net r2 of
            Inl e \<Rightarrow> ([r0, r1, r2], Inl e)
          | Inr rep2 \<Rightarrow>
      (let s2 = handleHeaders (handleAuthRotation c) (reply_headers rep2) s1
       in case reply_info rep2 of
            None \<Rightarrow> ([r0, r1, r2], Inl (Error ''Cannot read properties of undefined''))
          | Some b \<Rightarrow>
      (if \<not> is_Str (binaryDescription b)
       then ([r0, r1, r2], Inl (Error ''binaryDescription.split is not a function''))
       else
      (let decryptionKey = getDecryptionKey c (binaryVersion b) (binaryLogicValue b);
           r3 = init_request c b s2
       in case post net r3 of
            Inl e \<Rightarrow> ([r0, r1, r2, r3], Inl e)
          | Inr rep3 \<Rightarrow>
      (let s3 = handleHeaders (handleAuthRotation c) (reply_headers rep3) s2;
           r4 = binary_request b s3
       in if length decryptionKey \<noteq> 16
          then ([r0, r1, r2, r3], Inl (Error ''Invalid key length''))
          else
          case download net r4 decryptionKey of
            Inl e \<Rightarrow> ([r0, r1, r2, r3, r4], Inl e)
          | Inr events \<Rightarrow>
      (let folder = cwd @ ''/'' @ original modelInfo @ ''_'' @ region @ ''/'';
           (fin, st) = pipeline (binaryByteSize b) pipeline_start events
       in ([r0, r1, r2, r3, r4],
           Inr \<lparr>outputFolder = folder, run_ending = fin, run_state = st\<rparr>)))))))))"

section \<open>directDownload.ts\<close>

text \<open>
  The fields are the values \<open>mainBypassDownload\<close> passes: the transformed model and the
  components of the version triple, all of which only appear inside template literals.
\<close>

record DirectFirmwareInfo =
  info_model :: jsval
  info_region :: string
  info_pda :: jsval
  info_csc :: jsval
  info_modem :: jsval

definition possibleFilenames :: "DirectFirmwareInfo \<Rightarrow> string list" where
  "possibleFilenames info =
     (let model = to_str (info_model info); region = info_region info;
          pda = to_str (info_pda info); csc = to_str (info_csc info);
          modem = to_str (info_modem info)
      in [model @ ''_'' @ pda @ ''_'' @ csc @ ''_'' @ modem @ ''_HOME.tar.md5'',
          model @ ''_'' @ pda @ ''_'' @ csc @ ''_'' @ modem @ ''.tar.md5'',
          model @ ''_'' @ region @ ''_'' @ pda @ ''_'' @ csc @ ''_'' @ modem @ ''_HOME.tar.md5'',
          model @ ''_'' @ region @ ''_'' @ pda @ ''_'' @ csc @ ''_'' @ modem @ ''.tar.md5'',
          pda @ ''_'' @ csc @ ''_'' @ modem @ ''_HOME.tar.md5'',
          pda @ ''_'' @ csc @ ''_'' @ modem @ ''.tar.md5''])"

definition baseUrls :: "string list" where
  "baseUrls =
     [''http://cloud-neofussvr.sslcs.cdngc.net/NF_DownloadBinaryForMass.do?file='',
      ''https://cloud-neofussvr.sslcs.cdngc.net/NF_DownloadBinaryForMass.do?file='',
      ''http://neofussvr.sslcs.cdngc.net/NF_DownloadBinaryForMass.do?file='',
      ''https://neofussvr.sslcs.cdngc.net/NF_DownloadBinaryForMass.do?file='']"

definition pathPatterns :: "DirectFirmwareInfo \<Rightarrow> string list" where
  "pathPatterns info =
     (let model = to_str (info_model info); region = info_region info;
          pda = to_str (info_pda info)
      in [''/neofus/firmware/'' @ region @ ''/'' @ model @ ''/'' @ pda @ ''/'',
          ''/neofus/firmware/'' @ region @ ''/'' @ model @ ''/'',
          ''/firmware/'' @ region @ ''/'' @ model @ ''/'' @ pda @ ''/'',
          ''/firmware/'' @ region @ ''/'' @ model @ ''/'',
          ''/'' @ region @ ''/'' @ model @ ''/'' @ pda @ ''/'',
          ''/'' @ region @ ''/'' @ model @ ''/''])"

text \<open>The three nested \<open>for\<close> loops, each \<open>push\<close> appending to \<open>urls\<close>.\<close>

definition constructFirmwareUrls :: "DirectFirmwareInfo \<Rightarrow> string list" where
  "constructFirmwareUrls info =
     fold (\<lambda>baseUrl urls.
        fold (\<lambda>pathPattern urls.
           fold (\<lambda>filename urls. urls @ [baseUrl @ pathPattern @ filename])
             (possibleFilenames info) urls)
          (pathPatterns info) urls)
       baseUrls []"

text \<open>
  \<open>testFirmwareUrl\<close> is a HEAD request. It resolves to \<open>{accessible: false}\<close> or to
  \<open>{accessible: true, size, filename}\<close>, where \<open>size\<close> is what \<open>parseInt\<close> made of
  the content length: an integer or \<open>NaN\<close>. The model takes the object it resolves to
  from the environment, as a function of the URL.
\<close>

datatype jsnum = NaN | Num int

datatype probe_result =
    Inaccessible
  | Accessible jsnum string

record found =
  found_url :: string
  found_size :: int
  found_filename :: string

text \<open>
  \<open>Promise.all\<close>: the promises settle in the order of their latencies, each settlement
  carrying the index of its promise; the array delivered, once all have settled, holds
  the values by index.
\<close>

definition promise_all :: "(nat \<Rightarrow> nat) \<Rightarrow> 'a list \<Rightarrow> 'a list" where
  "promise_all lat ps =
     map snd (sort_key fst (map (\<lambda>k. (k, ps ! k)) (sort_key lat [0..<length ps])))"

text \<open>\<open>xs.slice(a, b)\<close> for \<open>0 \<le> a \<le> b\<close>.\<close>

definition slice :: "'a list \<Rightarrow> nat \<Rightarrow> nat \<Rightarrow> 'a list" where
  "slice xs a b = take (b - a) (drop a xs)"

definition batchSize :: nat where
  "batchSize = 5"

text \<open>The inner loop over the results of a batch (lines 122 to 135).\<close>

fun scan_results :: "(string \<times> probe_result) list \<Rightarrow> found option" where
  "scan_results [] = None"
| "scan_results ((url, Inaccessible) # rest) = scan_results rest"
| "scan_results ((url, Accessible NaN f) # rest) = scan_results rest"
| "scan_results ((url, Accessible (Num n) f) # rest) =
     (if n \<noteq> 0 \<and> n > 1000000
      then Some \<lparr>found_url = url, found_size = n, found_filename = f\<rparr>
      else scan_results rest)"

text \<open>
  The outer loop (lines 109 to 139), from index \<open>i\<close>. \<open>lat i\<close> gives the latencies of the
  probes of the batch that starts at \<open>i\<close>.
\<close>

function probe_batches ::
  "(nat \<Rightarrow> nat \<Rightarrow> nat) \<Rightarrow> (string \<Rightarrow> probe_result) \<Rightarrow> string list \<Rightarrow> nat \<Rightarrow> found option" where
  "probe_batches lat testFirmwareUrl urls i =
     (if i < length urls
      then (let batch = slice urls i (i + batchSize);
                results = promise_all (lat i) (map (\<lambda>url. (url, testFirmwareUrl url)) batch)
            in case scan_results results of
                 Some r \<Rightarrow> Some r
               | None \<Rightarrow> probe_batches lat testFirmwareUrl urls (i + batchSize))
      else None)"
  by pat_completeness auto
termination
  by (relation "measure (\<lambda>(lat, t, urls, i). length urls - i)") (auto simp: batchSize_def)

declare probe_batches.simps [simp del]

definition findAccessibleFirmwareUrl ::
  "(nat \<Rightarrow> nat \<Rightarrow> nat) \<Rightarrow> (string \<Rightarrow> probe_result) \<Rightarrow> DirectFirmwareInfo \<Rightarrow> found option" where
  "findAccessibleFirmwareUrl lat testFirmwareUrl info =
     probe_batches lat testFirmwareUrl (constructFirmwareUrls info) 0"

text \<open>
  The selection rule in the specification's words: the probe reports \<open>accessible\<close>
  with a size above 1,000,000; and the object returned for such a candidate.
\<close>

fun plausible :: "probe_result \<Rightarrow> bool" where
  "plausible (Accessible (Num n) f) = (n > 1000000)"
| "plausible r = False"

fun found_of :: "string \<Rightarrow> probe_result \<Rightarrow> found option" where
  "found_of url (Accessible (Num n) f) =
     Some \<lparr>found_url = url, found_size = n, found_filename = f\<rparr>"
| "found_of url r = None"

text \<open>
  The effects of the bypass path that a caller can observe, in the order they are made.
\<close>

datatype action =
    Mkdir string
  | Download string string    \<comment> \<open>\<open>downloadFirmwareDirect(url, outputPath)\<close>\<close>
  | Upload string             \<comment> \<open>\<open>uploadFirmwareToGofile(filePath, ...)\<close>\<close>
  | WriteSummary string
  | LogError string
  | Exit nat                  \<comment> \<open>\<open>process.exit(code)\<close>\<close>

text \<open>
  The environment of the bypass path: the manifest server, the HEAD probes and their
  latencies, the file system and Node's \<open>path\<close> functions, and the outcome of the two
  transfers (the download of a URL to a path, the upload of a file). Calls into the
  file system are taken to succeed.
\<close>

record bypass_env =
  manifest :: "string \<Rightarrow> error + string"
  head_probe :: "string \<Rightarrow> probe_result"
  latency :: "nat \<Rightarrow> nat \<Rightarrow> nat"
  existsSync :: "string \<Rightarrow> bool"
  path_join :: "string \<Rightarrow> string \<Rightarrow> string"
  path_basename :: "string \<Rightarrow> string"
  direct_download :: "string \<Rightarrow> string \<Rightarrow> error + string"
  gofile_upload :: "string \<Rightarrow> error + string"

definition directDownloadWorkflow ::
  "bypass_env \<Rightarrow> DirectFirmwareInfo \<Rightarrow> string \<Rightarrow> action list \<times> (error + string)" where
  "directDownloadWorkflow env info outputDir =
     (case findAccessibleFirmwareUrl (latency env) (head_probe env) info of
        None \<Rightarrow>
          ([], Inl (Error (''No accessible firmware URLs found. ''
                 @ ''Samsung may have changed their URL structure or blocked access.'')))
      | Some urlInfo \<Rightarrow>
          (let outputPath = path_join env outputDir (found_filename urlInfo)
           in ([Download (found_url urlInfo) outputPath],
               direct_download env (found_url urlInfo) outputPath)))"

section \<open>gofileUpload.ts\<close>

text \<open>
  The two closure variables of \<open>uploadFirmwareToGofile\<close>, and what the upload prints:
  the progress line that \<open>uploadToGofile\<close> writes for a chunk (bytes so far, file size)
  and the speed line of the callback (bytes and milliseconds since the last one).
\<close>

record throttle =
  lastProgressTime :: int
  lastUploadedBytes :: int

datatype printed_line =
    ProgressLine int int
  | SpeedLine int int

text \<open>The callback passed to \<open>uploadToGofile\<close> (lines 150 to 163); \<open>now\<close> is \<open>Date.now()\<close>.\<close>

definition onProgress :: "int \<Rightarrow> int \<Rightarrow> throttle \<Rightarrow> printed_line list \<times> throttle" where
  "onProgress now uploaded t =
     (if now - lastProgressTime t > 2000
      then ([SpeedLine (uploaded - lastUploadedBytes t) (now - lastProgressTime t)],
            \<lparr>lastProgressTime = now, lastUploadedBytes = uploaded\<rparr>)
      else ([], t))"

record upload_state =
  uploadedBytes :: int
  throttle_of :: throttle
  printed :: "(int \<times> printed_line) list"

text \<open>
  The \<open>data\<close> handler of the form (lines 73 to 81), for a chunk of the given length
  handled at clock value \<open>now\<close>. Every line printed is kept with the clock value.
\<close>

definition on_data :: "int \<Rightarrow> int \<times> nat \<Rightarrow> upload_state \<Rightarrow> upload_state" where
  "on_data fileSize chunk st =
     (let now = fst chunk;
          uploaded = uploadedBytes st + int (snd chunk);
          (lines, t) = onProgress now uploaded (throttle_of st)
      in \<lparr>uploadedBytes = uploaded,
          throttle_of = t,
          printed = printed st @ map (Pair now) lines @ [(now, ProgressLine uploaded fileSize)]\<rparr>)"

text \<open>An upload that starts at clock value \<open>t0\<close> and sends the chunks in order.\<close>

definition upload_lines :: "int \<Rightarrow> int \<Rightarrow> (int \<times> nat) list \<Rightarrow> (int \<times> printed_line) list" where
  "upload_lines t0 fileSize chunks =
     printed (fold (on_data fileSize) chunks
       \<lparr>uploadedBytes = 0,
        throttle_of = \<lparr>lastProgressTime = t0, lastUploadedBytes = 0\<rparr>,
        printed = []\<rparr>)"

fun is_speed :: "printed_line \<Rightarrow> bool" where
  "is_speed (SpeedLine b ms) = True"
| "is_speed (ProgressLine u n) = False"

text \<open>The lines of one kind printed in the window of 2000 ms that starts at \<open>w\<close>.\<close>

definition in_window :: "(printed_line \<Rightarrow> bool) \<Rightarrow> int \<Rightarrow> (int \<times> printed_line) list \<Rightarrow> (int \<times> printed_line) list" where
  "in_window kind w ls = filter (\<lambda>l. kind (snd l) \<and> w \<le> fst l \<and> fst l \<le> w + 2000) ls"

section \<open>index.ts: mainBypassDownload\<close>

definition mainBypassDownload :: "bypass_env \<Rightarrow> string \<Rightarrow> string \<Rightarrow> string \<Rightarrow> action list" where
  "mainBypassDownload env region model outputDir =
     (let modelInfo = transformModel model;
          processedModel = transformed modelInfo
      in case getLatestVersion (manifest env) region processedModel of
           Inl (Error m) \<Rightarrow> [LogError m, Exit 1]
         | Inr v \<Rightarrow>
      (let made = (if \<not> existsSync env outputDir then [Mkdir outputDir] else []);
           (acts, downloaded) =
             directDownloadWorkflow env
               \<lparr>info_model = processedModel, info_region = region,
                info_pda = pda v, info_csc = csc v, info_modem = modem v\<rparr>
               outputDir
       in case downloaded of
            Inl (Error m) \<Rightarrow> made @ acts @ [LogError m, Exit 1]
          | Inr downloadedFile \<Rightarrow>
              (case gofile_upload env downloadedFile of
                 Inl (Error m) \<Rightarrow> made @ acts @ [Upload downloadedFile, LogError m, Exit 1]
               | Inr summary \<Rightarrow>
                   made @ acts @
                   [Upload downloadedFile,
                    WriteSummary
                      (path_join env outputDir
                         (path_basename env downloadedFile @ ''_upload_summary.txt''))])))"

text \<open>
  The object literal \<open>mainBypassDownload\<close> passes to \<open>directDownloadWorkflow\<close>, and the
  message of the error the workflow throws.
\<close>

definition bypass_info :: "string \<Rightarrow> string \<Rightarrow> version_triple \<Rightarrow> DirectFirmwareInfo" where
  "bypass_info model region v =
     \<lparr>info_model = transformed (transformModel model), info_region = region,
      info_pda = pda v, info_csc = csc v, info_modem = modem v\<rparr>"

definition no_url_message :: string where
  "no_url_message =
     ''No accessible firmware URLs found. ''
       @ ''Samsung may have changed their URL structure or blocked access.''"

section \<open>Auxiliary notions for the properties\<close>

text \<open>Clock values that lie more than 2000 ms apart, the first more than 2000 ms after \<open>l\<close>.\<close>

fun spaced :: "int \<Rightarrow> int list \<Rightarrow> bool" where
  "spaced l [] = True"
| "spaced l (t # ts) = (t > l + 2000 \<and> spaced t ts)"

definition speed_times :: "(int \<times> printed_line) list \<Rightarrow> int list" where
  "speed_times ls = map fst (filter (\<lambda>l. is_speed (snd l)) ls)"

fun is_progress :: "printed_line \<Rightarrow> bool" where
  "is_progress (ProgressLine u n) = True"
| "is_progress (SpeedLine b ms) = False"

section \<open>Sample inputs\<close>

text \<open>A rotation function and the other absent functions, for the sample runs.\<close>

definition sample_rotation :: "response_headers \<Rightarrow> rotation" where
  "sample_rotation rh =
     (let n = (case nonce_header rh of None \<Rightarrow> [] | Some n \<Rightarrow> n)
      in \<lparr>Authorization = ''FUS nonce='' @ n,
          new_nonce = \<lparr>encrypted = n, decrypted = rev n\<rparr>\<rparr>)"

definition sample_response :: response_headers where
  "sample_response =
     \<lparr>nonce_header = Some ''abc'', set_cookie = Some [''JSESSIONID=42; Path=/'']\<rparr>"

definition sample_session :: session where
  "sample_session =
     \<lparr>nonce = \<lparr>encrypted = [], decrypted = []\<rparr>,
      headers = [(''User-Agent'', ''Kies2.0_FUS'')]\<rparr>"

definition sample_collaborators :: collaborators where
  "sample_collaborators =
     \<lparr>handleAuthRotation = sample_rotation,
      getBinaryInformMsg =
        (\<lambda>version region model n. version @ '' '' @ region @ '' '' @ to_str model @ '' '' @ n),
      getBinaryInitMsg = (\<lambda>filename n. filename @ '' '' @ n),
      getDecryptionKey = (\<lambda>version logic. take 16 (version @ logic @ ''0123456789abcdef''))\<rparr>"

definition sample_binary :: binary_info where
  "sample_binary =
     \<lparr>binaryByteSize = 4096, binaryDescription = Str ''d'', binaryFilename = ''fw.zip.enc4'',
      binaryLogicValue = ''lv'', binaryModelPath = ''/neofus/9/'', binaryOSVersion = ''T'',
      binaryVersion = ''P/C/M/P''\<rparr>"

definition sample_network :: network where
  "sample_network =
     \<lparr>fetch_manifest = (\<lambda>url. Inr ''P/C/M''),
      post = (\<lambda>r. Inr \<lparr>reply_headers = sample_response, reply_info = Some sample_binary\<rparr>),
      download = (\<lambda>r key. Inr [Data 2048, Entry ''boot.img'', Data 2048, Finish ''boot.img''])\<rparr>"

text \<open>The same servers, with a manifest whose third component is empty.\<close>

definition sample_network_no_modem :: network where
  "sample_network_no_modem = sample_network\<lparr>fetch_manifest := (\<lambda>url. Inr ''P/C/'')\<rparr>"

text \<open>
  A bypass environment in which one candidate answers, with 500,000 bytes, and the probes
  of a batch complete in reverse order.
\<close>

definition sample_bypass_env :: bypass_env where
  "sample_bypass_env =
     \<lparr>manifest = (\<lambda>url. Inr ''P/C/M''),
      head_probe =
        (\<lambda>url. if url = ''https://neofussvr.sslcs.cdngc.net/NF_DownloadBinaryForMass.do?file=''
                           @ ''/EUX/SM-S916B/P_C_M.tar.md5''
                then Accessible (Num 500000) ''P_C_M.tar.md5'' else Inaccessible),
      latency = (\<lambda>i k. 5 - k),
      existsSync = (\<lambda>p. False),
      path_join = (\<lambda>a b. a @ ''/'' @ b),
      path_basename = (\<lambda>p. last (split_chr (CHR ''/'') p)),
      direct_download = (\<lambda>url p. Inr p),
      gofile_upload = (\<lambda>p. Inr ''https://gofile.io/d/x'')\<rparr>"

text \<open>Probes of which only the one of the seventh generated candidate answers, with 2,000,000 bytes.\<close>

definition seventh_probe :: "string \<Rightarrow> probe_result" where
  "seventh_probe url =
     (if url = ''http://cloud-neofussvr.sslcs.cdngc.net/NF_DownloadBinaryForMass.do?file=''
                 @ ''/neofus/firmware/EUX/SM-S916B/SM-S916B_P_C_M_HOME.tar.md5''
      then Accessible (Num 2000000) ''SM-S916B_P_C_M_HOME.tar.md5'' else Inaccessible)"

section \<open>Properties of the model transformer\<close>

lemma original_transformModel: "original (transformModel m) = m"
  by (simp add: transformModel_def Let_def)

text \<open>
  An identifier that names neither an own property of the table nor a property of
  \<open>Object.prototype\<close> comes back unchanged.
\<close>

lemma transformModel_plain_identifier:
  "map_of MODEL_TRANSFORMATIONS m = None \<Longrightarrow> map_of Object_prototype m = None \<Longrightarrow>
   transformModel m = \<lparr>original = m, transformed = Str m, wasTransformed = False\<rparr>"
  by (simp add: transformModel_def get_property_def Let_def)

text \<open>
  Claim C9 says that every identifier outside the rewrite table is returned unchanged with
  \<open>wasTransformed = false\<close>. The identifier \<open>constructor\<close> is not in the table, yet the
  bracket read finds \<open>Object.prototype.constructor\<close>: the result is not the input, it
  is not even a string, and \<open>wasTransformed\<close> is true.
\<close>

theorem transformModel_constructor:
  "map_of MODEL_TRANSFORMATIONS ''constructor'' = None \<and>
   transformModel ''constructor'' =
     \<lparr>original = ''constructor'', transformed = Fn ''Object'', wasTransformed = True\<rparr>"
  by (simp add: transformModel_def get_property_def MODEL_TRANSFORMATIONS_def
      Object_prototype_def Let_def)

section \<open>Properties of the version resolver\<close>

text \<open>
  Claim C4 says that a latest-version field of only two components gives an empty
  \<open>modem\<close>. The destructuring gives \<open>undefined\<close> instead, which the comparison with
  the empty string in \<open>main\<close> lets through: the BinaryInform version carries the text
  \<open>undefined\<close> in the modem position.
\<close>

theorem two_components_give_undefined_modem:
  "getLatestVersion (\<lambda>url. Inr ''G960FXXU2BRJ3/G960FOXM2BRJ3'') ''EUX'' (Str ''SM-G960F'') =
     Inr \<lparr>pda = Str ''G960FXXU2BRJ3'', csc = Str ''G960FOXM2BRJ3'', modem = Undefined\<rparr> \<and>
   inform_version (parse_latest ''G960FXXU2BRJ3/G960FOXM2BRJ3'') =
     ''G960FXXU2BRJ3/G960FOXM2BRJ3/undefined/G960FXXU2BRJ3''"
  by (simp add: getLatestVersion_def parse_latest_def elem_def inform_version_def Let_def)

text \<open>A third component that is present and empty does give the empty string.\<close>

lemma trailing_slash_gives_empty_modem:
  "parse_latest ''G960FXXU2BRJ3/G960FOXM2BRJ3/'' =
     \<lparr>pda = Str ''G960FXXU2BRJ3'', csc = Str ''G960FOXM2BRJ3'', modem = Str []\<rparr>"
  by (simp add: parse_latest_def elem_def Let_def)

text \<open>
  Claim C5: when the version triple that \<open>main\<close> resolves has the empty string as its
  modem, the BinaryInform request that \<open>main\<close> sends (its third request, sent once the
  nonce request has been answered) carries \<open>pda\<close> in the modem position of the version.
\<close>

theorem empty_modem_uses_pda:
  assumes "getLatestVersion (fetch_manifest net) region (transformed (transformModel model))
             = Inr v"
    and "modem v = Str []"
    and "post net nonce_request = Inr rep"
  shows "2 < length (fst (main c net cwd region model)) \<and>
         fst (main c net cwd region model) ! 2 =
           Post ''https://neofussvr.sslcs.cdngc.net/NF_DownloadBinaryInform.do''
             (getBinaryInformMsg c
                (to_str (pda v) @ ''/'' @ to_str (csc v) @ ''/'' @ to_str (pda v) @ ''/''
                   @ to_str (pda v))
                region
                (transformed (transformModel model))
                (decrypted (nonce (handleHeaders (handleAuthRotation c) (reply_headers rep)
                   \<lparr>nonce = \<lparr>encrypted = [], decrypted = []\<rparr>,
                    headers = [(''User-Agent'', ''Kies2.0_FUS'')]\<rparr>))))
             (xml_headers (headers (handleHeaders (handleAuthRotation c) (reply_headers rep)
                   \<lparr>nonce = \<lparr>encrypted = [], decrypted = []\<rparr>,
                    headers = [(''User-Agent'', ''Kies2.0_FUS'')]\<rparr>)))"
  using assms
  by (simp add: main_def Let_def inform_request_def inform_version_def
      split: sum.splits option.splits prod.splits)

theorem empty_modem_uses_pda_witness:
  "fst (main sample_collaborators sample_network_no_modem ''/home/user'' ''EUX'' ''SM-S906B'') ! 2 =
     Post ''https://neofussvr.sslcs.cdngc.net/NF_DownloadBinaryInform.do''
       ''P/C/P/P EUX SM-S916B cba''
       [(''User-Agent'', ''Kies2.0_FUS''), (''Authorization'', ''FUS nonce=abc''),
        (''Cookie'', ''JSESSIONID=42''), (''Accept'', ''application/xml''),
        (''Content-Type'', ''application/xml'')]"
proof -
  have t: "transformed (transformModel ''SM-S906B'') = Str ''SM-S916B''"
    by (simp add: transformModel_def get_property_def MODEL_TRANSFORMATIONS_def Let_def)
  have a: "getLatestVersion (fetch_manifest sample_network_no_modem) ''EUX''
             (transformed (transformModel ''SM-S906B'')) = Inr (parse_latest ''P/C/'')"
    by (simp add: getLatestVersion_def sample_network_no_modem_def sample_network_def)
  have b: "modem (parse_latest ''P/C/'') = Str []"
    by (simp add: parse_latest_def elem_def Let_def)
  have c: "post sample_network_no_modem nonce_request =
             Inr \<lparr>reply_headers = sample_response, reply_info = Some sample_binary\<rparr>"
    by (simp add: sample_network_no_modem_def sample_network_def)
  show ?thesis
    using empty_modem_uses_pda [OF a b c, of sample_collaborators "''/home/user''"]
    by (simp add: t parse_latest_def elem_def Let_def sample_collaborators_def
        sample_rotation_def sample_response_def handleHeaders_def xml_headers_def)
qed

section \<open>Properties of the session headers\<close>

text \<open>
  Claim C3: a response without a nonce header leaves the stored nonce and the
  Authorization header as they were; a response with one replaces both by what the
  rotation returns for that very response, whatever the session held before. So the
  Authorization header is replaced if and only if the response carried a nonce header,
  and whenever the rotation yields a header other than the stored one, its value changes
  if and only if the response carried a nonce header.
\<close>

theorem handleHeaders_rotation:
  "nonce (handleHeaders rot rh s) =
     (if nonce_header rh = None then nonce s else new_nonce (rot rh)) \<and>
   map_of (headers (handleHeaders rot rh s)) ''Authorization'' =
     (if nonce_header rh = None then map_of (headers s) ''Authorization''
      else Some (Authorization (rot rh))) \<and>
   (map_of (headers s) ''Authorization'' \<noteq> Some (Authorization (rot rh)) \<longrightarrow>
      (map_of (headers (handleHeaders rot rh s)) ''Authorization''
         \<noteq> map_of (headers s) ''Authorization'')
      = (nonce_header rh \<noteq> None))"
  by (auto simp add: handleHeaders_def Let_def update_conv' split: option.splits list.splits)

theorem handleHeaders_rotation_witness:
  "map_of (headers sample_session) ''Authorization''
     \<noteq> Some (Authorization (sample_rotation sample_response)) \<and>
   nonce_header sample_response \<noteq> None \<and>
   map_of (headers sample_session) ''Authorization'' = None \<and>
   map_of (headers (handleHeaders sample_rotation sample_response sample_session))
       ''Authorization'' = Some ''FUS nonce=abc'' \<and>
   nonce (handleHeaders sample_rotation sample_response sample_session) =
     \<lparr>encrypted = ''abc'', decrypted = ''cba''\<rparr>"
proof -
  have h: "map_of (headers sample_session) ''Authorization''
      \<noteq> Some (Authorization (sample_rotation sample_response))"
    by (simp add: sample_session_def)
  show ?thesis
    using h handleHeaders_rotation [of sample_rotation sample_response sample_session]
    by (simp add: sample_session_def sample_rotation_def sample_response_def Let_def)
qed

section \<open>Properties of the download pipeline\<close>

lemma received_nonneg: "0 \<le> received es"
  by (induction es rule: received.induct) auto

lemma pipeline_never_exits:
  "downloadedSize st + received es < n \<Longrightarrow> fst (pipeline n st es) \<noteq> Exited"
proof (induction es arbitrary: st)
  case Nil
  then show ?case by simp
next
  case (Cons e es)
  show ?case
  proof (cases e)
    case (Data k)
    with Cons show ?thesis by simp
  next
    case (Entry p)
    with Cons show ?thesis by simp
  next
    case (Finish p)
    with Cons.prems received_nonneg [of es] have "downloadedSize st \<noteq> n" by simp
    with Finish Cons show ?thesis by (simp add: Let_def)
  next
    case (Fault m)
    then show ?thesis by simp
  qed
qed

lemma pipeline_drains:
  "downloadedSize st + received es < n \<Longrightarrow> no_fault es \<Longrightarrow>
   fst (pipeline n st es) = Drained
   \<and> written (snd (pipeline n st es)) = written st @ finished es
   \<and> downloadedSize (snd (pipeline n st es)) = downloadedSize st + received es"
proof (induction es arbitrary: st)
  case Nil
  then show ?case by simp
next
  case (Cons e es)
  show ?case
  proof (cases e)
    case (Data k)
    with Cons.prems Cons.IH [of "st\<lparr>downloadedSize := downloadedSize st + int k\<rparr>"]
    show ?thesis by simp
  next
    case (Entry p)
    with Cons.prems Cons.IH [of "st\<lparr>currentFile := take 18 p @ ''...''\<rparr>"]
    show ?thesis by simp
  next
    case (Finish p)
    with Cons.prems received_nonneg [of es] have "downloadedSize st \<noteq> n" by simp
    with Finish Cons.prems Cons.IH [of "st\<lparr>written := written st @ [p]\<rparr>"]
    show ?thesis by (simp add: Let_def)
  next
    case (Fault m)
    with Cons.prems show ?thesis by simp
  qed
qed

text \<open>
  \<open>process.exit()\<close> is reached only at the finish of an entry at which the bytes
  received so far equal the expected size.
\<close>

lemma exit_only_at_byte_size:
  "fst (pipeline n st es) = Exited \<Longrightarrow>
   \<exists>pre p post. es = pre @ Finish p # post \<and> downloadedSize st + received pre = n"
proof (induction es arbitrary: st)
  case Nil
  then show ?case by simp
next
  case (Cons e es)
  show ?case
  proof (cases e)
    case (Data k)
    with Cons.prems
    have "fst (pipeline n (st\<lparr>downloadedSize := downloadedSize st + int k\<rparr>) es) = Exited"
      by simp
    from Cons.IH [OF this] obtain pre p post
      where "es = pre @ Finish p # post" "downloadedSize st + int k + received pre = n"
      by auto
    then have "e # es = (e # pre) @ Finish p # post \<and> downloadedSize st + received (e # pre) = n"
      using Data by simp
    then show ?thesis by blast
  next
    case (Entry q)
    with Cons.prems
    have "fst (pipeline n (st\<lparr>currentFile := take 18 q @ ''...''\<rparr>) es) = Exited"
      by simp
    from Cons.IH [OF this] obtain pre p post
      where "es = pre @ Finish p # post" "downloadedSize st + received pre = n"
      by auto
    then have "e # es = (e # pre) @ Finish p # post \<and> downloadedSize st + received (e # pre) = n"
      using Entry by simp
    then show ?thesis by blast
  next
    case (Finish q)
    show ?thesis
    proof (cases "downloadedSize st = n")
      case True
      then have "e # es = [] @ Finish q # es \<and> downloadedSize st + received [] = n"
        using Finish by simp
      then show ?thesis by blast
    next
      case False
      with Cons.prems Finish
      have "fst (pipeline n (st\<lparr>written := written st @ [q]\<rparr>) es) = Exited"
        by (simp add: Let_def)
      from Cons.IH [OF this] obtain pre p post
        where "es = pre @ Finish p # post" "downloadedSize st + received pre = n"
        by auto
      then have "e # es = (e # pre) @ Finish p # post \<and> downloadedSize st + received (e # pre) = n"
        using Finish by simp
      then show ?thesis by blast
    qed
  next
    case (Fault m)
    with Cons.prems show ?thesis by simp
  qed
qed

text \<open>
  Claim C1, amended: \<open>process.exit()\<close> is reached only at the finish of an entry at
  which the bytes received so far equal the expected size. A stream that ends before that
  many bytes have been received never reaches it, and the comparison of the byte counts
  raises nothing: unless one of the streams emits an error of its own, the pipeline just
  runs out, leaving the entries written so far.
\<close>

theorem pipeline_completion_and_truncation:
  "(fst (pipeline n pipeline_start es) = Exited \<longrightarrow>
      (\<exists>pre p post. es = pre @ Finish p # post \<and> received pre = n)) \<and>
   (received es < n \<longrightarrow>
      fst (pipeline n pipeline_start es) \<noteq> Exited \<and>
      (no_fault es \<longrightarrow>
         fst (pipeline n pipeline_start es) = Drained \<and>
         written (snd (pipeline n pipeline_start es)) = finished es \<and>
         downloadedSize (snd (pipeline n pipeline_start es)) = received es))"
proof -
  have "\<exists>pre p post. es = pre @ Finish p # post \<and> received pre = n"
    if "fst (pipeline n pipeline_start es) = Exited"
    using exit_only_at_byte_size [OF that] by (simp add: pipeline_start_def)
  moreover have "fst (pipeline n pipeline_start es) \<noteq> Exited" if "received es < n"
    using that pipeline_never_exits [of pipeline_start es n] by (simp add: pipeline_start_def)
  moreover have "fst (pipeline n pipeline_start es) = Drained \<and>
      written (snd (pipeline n pipeline_start es)) = finished es \<and>
      downloadedSize (snd (pipeline n pipeline_start es)) = received es"
    if "received es < n" "no_fault es"
    using that pipeline_drains [of pipeline_start es n] by (simp add: pipeline_start_def)
  ultimately show ?thesis by blast
qed

theorem pipeline_completion_and_truncation_witness:
  "fst (pipeline 10 pipeline_start [Data 4, Entry ''boot.img'', Data 6, Finish ''boot.img''])
     = Exited \<and>
   (\<exists>pre p post. [Data 4, Entry ''boot.img'', Data 6, Finish ''boot.img''] = pre @ Finish p # post
      \<and> received pre = 10) \<and>
   received [Data 4, Entry ''boot.img'', Finish ''boot.img''] < 10 \<and>
   no_fault [Data 4, Entry ''boot.img'', Finish ''boot.img''] \<and>
   fst (pipeline 10 pipeline_start [Data 4, Entry ''boot.img'', Finish ''boot.img'']) = Drained \<and>
   written (snd (pipeline 10 pipeline_start [Data 4, Entry ''boot.img'', Finish ''boot.img'']))
     = [''boot.img'']"
proof -
  have a: "fst (pipeline 10 pipeline_start
      [Data 4, Entry ''boot.img'', Data 6, Finish ''boot.img'']) = Exited"
    by (simp add: pipeline_start_def Let_def)
  have b: "received [Data 4, Entry ''boot.img'', Finish ''boot.img''] < 10"
    by simp
  have c: "no_fault [Data 4, Entry ''boot.img'', Finish ''boot.img'']"
    by simp
  from a pipeline_completion_and_truncation
    [where n = 10 and es = "[Data 4, Entry ''boot.img'', Data 6, Finish ''boot.img'']"]
  have d: "\<exists>pre p post. [Data 4, Entry ''boot.img'', Data 6, Finish ''boot.img'']
      = pre @ Finish p # post \<and> received pre = 10"
    by blast
  from b c pipeline_completion_and_truncation
    [where n = 10 and es = "[Data 4, Entry ''boot.img'', Finish ''boot.img'']"]
  have e: "fst (pipeline 10 pipeline_start [Data 4, Entry ''boot.img'', Finish ''boot.img''])
      = Drained \<and>
    written (snd (pipeline 10 pipeline_start [Data 4, Entry ''boot.img'', Finish ''boot.img'']))
      = finished [Data 4, Entry ''boot.img'', Finish ''boot.img'']"
    by blast
  from a b c d e show ?thesis by simp
qed

text \<open>
  The claim as stated fails: a stream of 4 bytes, where 10 were announced, ends with no
  failure at all and one file on disk.
\<close>

theorem truncated_stream_ends_silently:
  "pipeline 10 pipeline_start [Data 4, Entry ''boot.img'', Finish ''boot.img''] =
     (Drained, \<lparr>downloadedSize = 4, currentFile = ''boot.img...'', written = [''boot.img'']\<rparr>)"
  by (simp add: pipeline_start_def Let_def)

section \<open>Properties of main\<close>

text \<open>
  Claim C10: whenever \<open>main\<close> gets as far as the pipeline, the output folder is named
  from the model as given and the region, while the manifest request and the
  BinaryInform message carry the transformed model.
\<close>

theorem output_folder_from_original:
  assumes "snd (main c net cwd region model) = Inr r"
  shows "outputFolder r = cwd @ ''/'' @ model @ ''_'' @ region @ ''/'' \<and>
         hd (fst (main c net cwd region model)) =
           Get (version_url region (transformed (transformModel model))) [] \<and>
         (\<exists>v s. fst (main c net cwd region model) ! 2 =
                  inform_request c v region (transformed (transformModel model)) s)"
  using assms
  apply (clarsimp simp add: main_def Let_def original_transformModel
      split: sum.splits option.splits prod.splits if_splits)
  apply blast
  done

theorem output_folder_from_original_witness:
  "snd (main sample_collaborators sample_network ''/home/user'' ''EUX'' ''SM-S906B'') =
     Inr \<lparr>outputFolder = ''/home/user/SM-S906B_EUX/'', run_ending = Exited,
          run_state = \<lparr>downloadedSize = 4096, currentFile = ''boot.img...'',
                       written = [''boot.img'']\<rparr>\<rparr> \<and>
   hd (fst (main sample_collaborators sample_network ''/home/user'' ''EUX'' ''SM-S906B'')) =
     Get ''https://fota-cloud-dn.ospserver.net/firmware/EUX/SM-S916B/version.xml'' []"
proof -
  have h: "snd (main sample_collaborators sample_network ''/home/user'' ''EUX'' ''SM-S906B'') =
     Inr \<lparr>outputFolder = ''/home/user/SM-S906B_EUX/'', run_ending = Exited,
          run_state = \<lparr>downloadedSize = 4096, currentFile = ''boot.img...'',
                       written = [''boot.img'']\<rparr>\<rparr>"
    by (simp add: main_def Let_def transformModel_def get_property_def MODEL_TRANSFORMATIONS_def
        getLatestVersion_def sample_network_def sample_binary_def sample_collaborators_def
        pipeline_start_def)
  have t: "transformed (transformModel ''SM-S906B'') = Str ''SM-S916B''"
    by (simp add: transformModel_def get_property_def MODEL_TRANSFORMATIONS_def Let_def)
  show ?thesis
    using h output_folder_from_original [OF h] by (simp add: t version_url_def)
qed

section \<open>Properties of the direct download\<close>

lemma fold_push: "fold (\<lambda>x acc. acc @ [g x]) xs = (\<lambda>acc. acc @ map g xs)"
proof
  fix acc
  show "fold (\<lambda>x acc. acc @ [g x]) xs acc = acc @ map g xs"
    by (induction xs arbitrary: acc) auto
qed

lemma fold_push_all: "fold (\<lambda>x acc. acc @ g x) xs = (\<lambda>acc. acc @ concat (map g xs))"
proof
  fix acc
  show "fold (\<lambda>x acc. acc @ g x) xs acc = acc @ concat (map g xs)"
    by (induction xs arbitrary: acc) auto
qed

lemma constructFirmwareUrls_concat:
  "constructFirmwareUrls info =
     concat (map (\<lambda>b. concat (map (\<lambda>p. map (\<lambda>f. b @ p @ f) (possibleFilenames info))
                                  (pathPatterns info)))
               baseUrls)"
  unfolding constructFirmwareUrls_def by (simp add: fold_push fold_push_all)

lemma table_lengths:
  "length baseUrls = 4" "length (pathPatterns info) = 6" "length (possibleFilenames info) = 6"
  by (simp_all add: baseUrls_def pathPatterns_def possibleFilenames_def Let_def)

lemma length_concat_const:
  "(\<And>x. x \<in> set xs \<Longrightarrow> length (g x) = n) \<Longrightarrow> length (concat (map g xs)) = length xs * n"
  by (induction xs) auto

text \<open>
  Claim C7: for every model, region, pda, csc and modem, the candidate list is the product
  of the 4 base URLs, the 6 path patterns and the 6 file names written out below, each
  filled in with those values, 144 entries, with the base URL varying slowest and the
  file name fastest.
\<close>

theorem constructFirmwareUrls_product:
  "constructFirmwareUrls
     \<lparr>info_model = m, info_region = region, info_pda = p, info_csc = c, info_modem = d\<rparr> =
     [baseUrl @ pathPattern @ filename.
        baseUrl \<leftarrow>
          [''http://cloud-neofussvr.sslcs.cdngc.net/NF_DownloadBinaryForMass.do?file='',
           ''https://cloud-neofussvr.sslcs.cdngc.net/NF_DownloadBinaryForMass.do?file='',
           ''http://neofussvr.sslcs.cdngc.net/NF_DownloadBinaryForMass.do?file='',
           ''https://neofussvr.sslcs.cdngc.net/NF_DownloadBinaryForMass.do?file=''],
        pathPattern \<leftarrow>
          [''/neofus/firmware/'' @ region @ ''/'' @ to_str m @ ''/'' @ to_str p @ ''/'',
           ''/neofus/firmware/'' @ region @ ''/'' @ to_str m @ ''/'',
           ''/firmware/'' @ region @ ''/'' @ to_str m @ ''/'' @ to_str p @ ''/'',
           ''/firmware/'' @ region @ ''/'' @ to_str m @ ''/'',
           ''/'' @ region @ ''/'' @ to_str m @ ''/'' @ to_str p @ ''/'',
           ''/'' @ region @ ''/'' @ to_str m @ ''/''],
        filename \<leftarrow>
          [to_str m @ ''_'' @ to_str p @ ''_'' @ to_str c @ ''_'' @ to_str d @ ''_HOME.tar.md5'',
           to_str m @ ''_'' @ to_str p @ ''_'' @ to_str c @ ''_'' @ to_str d @ ''.tar.md5'',
           to_str m @ ''_'' @ region @ ''_'' @ to_str p @ ''_'' @ to_str c @ ''_'' @ to_str d
             @ ''_HOME.tar.md5'',
           to_str m @ ''_'' @ region @ ''_'' @ to_str p @ ''_'' @ to_str c @ ''_'' @ to_str d
             @ ''.tar.md5'',
           to_str p @ ''_'' @ to_str c @ ''_'' @ to_str d @ ''_HOME.tar.md5'',
           to_str p @ ''_'' @ to_str c @ ''_'' @ to_str d @ ''.tar.md5'']] \<and>
   length (constructFirmwareUrls
     \<lparr>info_model = m, info_region = region, info_pda = p, info_csc = c, info_modem = d\<rparr>) = 144"
proof -
  let ?info = "\<lparr>info_model = m, info_region = region, info_pda = p, info_csc = c,
                 info_modem = d\<rparr>"
  have "constructFirmwareUrls ?info =
      concat (map (\<lambda>b. concat (map (\<lambda>pp. map (\<lambda>f. b @ pp @ f) (possibleFilenames ?info))
                                   (pathPatterns ?info)))
                baseUrls)"
    by (rule constructFirmwareUrls_concat)
  then have eq: "constructFirmwareUrls ?info =
     [baseUrl @ pathPattern @ filename.
        baseUrl \<leftarrow>
          [''http://cloud-neofussvr.sslcs.cdngc.net/NF_DownloadBinaryForMass.do?file='',
           ''https://cloud-neofussvr.sslcs.cdngc.net/NF_DownloadBinaryForMass.do?file='',
           ''http://neofussvr.sslcs.cdngc.net/NF_DownloadBinaryForMass.do?file='',
           ''https://neofussvr.sslcs.cdngc.net/NF_DownloadBinaryForMass.do?file=''],
        pathPattern \<leftarrow>
          [''/neofus/firmware/'' @ region @ ''/'' @ to_str m @ ''/'' @ to_str p @ ''/'',
           ''/neofus/firmware/'' @ region @ ''/'' @ to_str m @ ''/'',
           ''/firmware/'' @ region @ ''/'' @ to_str m @ ''/'' @ to_str p @ ''/'',
           ''/firmware/'' @ region @ ''/'' @ to_str m @ ''/'',
           ''/'' @ region @ ''/'' @ to_str m @ ''/'' @ to_str p @ ''/'',
           ''/'' @ region @ ''/'' @ to_str m @ ''/''],
        filename \<leftarrow>
          [to_str m @ ''_'' @ to_str p @ ''_'' @ to_str c @ ''_'' @ to_str d @ ''_HOME.tar.md5'',
           to_str m @ ''_'' @ to_str p @ ''_'' @ to_str c @ ''_'' @ to_str d @ ''.tar.md5'',
           to_str m @ ''_'' @ region @ ''_'' @ to_str p @ ''_'' @ to_str c @ ''_'' @ to_str d
             @ ''_HOME.tar.md5'',
           to_str m @ ''_'' @ region @ ''_'' @ to_str p @ ''_'' @ to_str c @ ''_'' @ to_str d
             @ ''.tar.md5'',
           to_str p @ ''_'' @ to_str c @ ''_'' @ to_str d @ ''_HOME.tar.md5'',
           to_str p @ ''_'' @ to_str c @ ''_'' @ to_str d @ ''.tar.md5'']]"
    by (simp only: baseUrls_def pathPatterns_def possibleFilenames_def Let_def
        DirectFirmwareInfo.simps)
  have len: "length (constructFirmwareUrls ?info) = 144"
    by (simp add: constructFirmwareUrls_concat table_lengths
        length_concat_const [where n = 36] length_concat_const [where n = 6])
  from eq len show ?thesis by simp
qed

text \<open>The array that \<open>Promise.all\<close> delivers does not depend on the latencies.\<close>

lemma filter_eq_distinct:
  "distinct xs \<Longrightarrow> filter (\<lambda>k. a = k) xs = (if a \<in> set xs then [a] else [])"
  by (induction xs) auto

lemma sort_key_fst_tagged:
  assumes "mset order = mset [0..<n]"
  shows "sort_key fst (map (\<lambda>k. (k, g k)) order) = map (\<lambda>k. (k, g k)) [0..<n]"
proof (rule properties_for_sort_key)
  show "mset (map (\<lambda>k. (k, g k)) [0..<n]) = mset (map (\<lambda>k. (k, g k)) order)"
    using assms by (metis mset_map)
next
  fix p
  assume "p \<in> set (map (\<lambda>k. (k, g k)) [0..<n])"
  have d: "distinct order"
    using assms by (metis distinct_upt mset_eq_imp_distinct_iff)
  have s: "set order = {0..<n}"
    using assms by (metis mset_eq_setD set_upt)
  have "filter (\<lambda>x. fst p = fst x) (map (\<lambda>k. (k, g k)) xs) =
        map (\<lambda>k. (k, g k)) (filter (\<lambda>k. fst p = k) xs)" for xs
    by (induction xs) auto
  moreover have "filter (\<lambda>k. fst p = k) order = filter (\<lambda>k. fst p = k) [0..<n]"
    using d s filter_eq_distinct [of order "fst p"] filter_eq_distinct [of "[0..<n]" "fst p"]
    by simp
  ultimately
  show "filter (\<lambda>x. fst p = fst x) (map (\<lambda>k. (k, g k)) [0..<n]) =
        filter (\<lambda>x. fst p = fst x) (map (\<lambda>k. (k, g k)) order)"
    by simp
next
  show "sorted (map fst (map (\<lambda>k. (k, g k)) [0..<n]))"
    by (simp add: comp_def)
qed

lemma promise_all_in_order: "promise_all lat ps = ps"
proof -
  have "mset (sort_key lat [0..<length ps]) = mset [0..<length ps]"
    by simp
  then have "sort_key fst (map (\<lambda>k. (k, ps ! k)) (sort_key lat [0..<length ps])) =
             map (\<lambda>k. (k, ps ! k)) [0..<length ps]"
    by (rule sort_key_fst_tagged)
  then show ?thesis
    by (simp add: promise_all_def comp_def map_nth)
qed

lemma scan_results_find:
  "scan_results (map (\<lambda>url. (url, t url)) us) =
     (case find (\<lambda>u. plausible (t u)) us of None \<Rightarrow> None | Some u \<Rightarrow> found_of u (t u))"
proof (induction us)
  case Nil
  then show ?case by simp
next
  case (Cons u us)
  show ?case
  proof (cases "t u")
    case Inaccessible
    with Cons show ?thesis by simp
  next
    case (Accessible sz f)
    with Cons show ?thesis by (cases sz) auto
  qed
qed

lemma find_append_case:
  "find P (xs @ ys) = (case find P xs of None \<Rightarrow> find P ys | Some x \<Rightarrow> Some x)"
  by (induction xs) auto

lemma found_of_plausible: "plausible r \<Longrightarrow> found_of u r \<noteq> None"
  by (cases "(u, r)" rule: found_of.cases) auto

lemma found_url_found_of: "plausible r \<Longrightarrow> map_option found_url (found_of u r) = Some u"
  by (cases "(u, r)" rule: found_of.cases) auto

lemma probe_batches_find:
  "probe_batches lat t urls i =
     (case find (\<lambda>u. plausible (t u)) (drop i urls) of
        None \<Rightarrow> None
      | Some u \<Rightarrow> found_of u (t u))"
proof (induction lat t urls i rule: probe_batches.induct)
  case (1 lat t urls i)
  show ?case
  proof (cases "i < length urls")
    case False
    then show ?thesis by (subst probe_batches.simps) simp
  next
    case True
    let ?P = "\<lambda>u. plausible (t u)"
    have split: "drop i urls = slice urls i (i + batchSize) @ drop (i + batchSize) urls"
      by (simp add: slice_def add.commute [of i] flip: drop_drop)
    show ?thesis
    proof (cases "find ?P (slice urls i (i + batchSize))")
      case None
      then have "scan_results (promise_all (lat i)
          (map (\<lambda>url. (url, t url)) (slice urls i (i + batchSize)))) = None"
        by (simp add: promise_all_in_order scan_results_find)
      with True 1 None show ?thesis
        by (subst probe_batches.simps, subst split) (simp add: find_append_case Let_def)
    next
      case (Some u)
      then have pl: "plausible (t u)"
        by (auto simp: find_Some_iff)
      from Some have "scan_results (promise_all (lat i)
          (map (\<lambda>url. (url, t url)) (slice urls i (i + batchSize)))) = found_of u (t u)"
        by (simp add: promise_all_in_order scan_results_find)
      with True Some found_of_plausible [OF pl, of u] show ?thesis
        by (subst probe_batches.simps, subst split) (auto simp add: find_append_case Let_def)
    qed
  qed
qed

lemma found_url_first_plausible:
  "map_option found_url
     (case find (\<lambda>u. plausible (t u)) urls of None \<Rightarrow> None | Some u \<Rightarrow> found_of u (t u)) =
   find (\<lambda>u. plausible (t u)) urls"
proof (cases "find (\<lambda>u. plausible (t u)) urls")
  case None
  then show ?thesis by simp
next
  case (Some u)
  then have "plausible (t u)"
    by (auto simp: find_Some_iff)
  with Some show ?thesis
    by (simp add: found_url_found_of)
qed

text \<open>
  Claim C2: for every list of candidates, every probe outcome and every latency of the
  probes, the search returns the first candidate of the list whose probe is accessible
  with a size above 1,000,000, with the size and file name of that probe, and nothing
  when there is none; so does \<open>findAccessibleFirmwareUrl\<close> on the generated list.
\<close>

theorem first_plausible_candidate_wins:
  "probe_batches lat t urls 0 =
     (case find (\<lambda>u. plausible (t u)) urls of None \<Rightarrow> None | Some u \<Rightarrow> found_of u (t u)) \<and>
   map_option found_url (probe_batches lat t urls 0) = find (\<lambda>u. plausible (t u)) urls \<and>
   map_option found_url (findAccessibleFirmwareUrl lat t info) =
     find (\<lambda>u. plausible (t u)) (constructFirmwareUrls info)"
  by (simp add: findAccessibleFirmwareUrl_def probe_batches_find found_url_first_plausible)

text \<open>
  In particular, when the seventh candidate is the only one whose probe satisfies the
  rule, the seventh candidate is returned.
\<close>

lemma seventh_candidate_returned:
  assumes "6 < length urls" and "\<And>u. plausible (t u) \<longleftrightarrow> u = urls ! 6"
  shows "map_option found_url (probe_batches lat t urls 0) = Some (urls ! 6)"
proof -
  have "urls ! 6 \<in> set urls"
    using assms(1) by simp
  then have "find (\<lambda>u. plausible (t u)) urls \<noteq> None"
    using assms(2) by (auto simp: find_None_iff)
  then obtain u where u: "find (\<lambda>u. plausible (t u)) urls = Some u"
    by auto
  then have "plausible (t u)"
    by (auto simp: find_Some_iff)
  then have "u = urls ! 6"
    using assms(2) by simp
  moreover have "map_option found_url (probe_batches lat t urls 0) =
      find (\<lambda>u. plausible (t u)) urls"
    by (simp add: probe_batches_find found_url_first_plausible)
  ultimately show ?thesis
    using u by simp
qed

text \<open>
  An instance on the generated list: only the seventh candidate answers, with 2,000,000
  bytes, and the probes of each batch complete in reverse order.
\<close>

lemma seventh_candidate_example:
  "constructFirmwareUrls (bypass_info ''SM-S906B'' ''EUX'' (parse_latest ''P/C/M'')) ! 6 =
     ''http://cloud-neofussvr.sslcs.cdngc.net/NF_DownloadBinaryForMass.do?file=/neofus/firmware/EUX/SM-S916B/SM-S916B_P_C_M_HOME.tar.md5'' \<and>
   findAccessibleFirmwareUrl (\<lambda>i k. 5 - k) seventh_probe
       (bypass_info ''SM-S906B'' ''EUX'' (parse_latest ''P/C/M'')) =
     Some \<lparr>found_url = ''http://cloud-neofussvr.sslcs.cdngc.net/NF_DownloadBinaryForMass.do?file=/neofus/firmware/EUX/SM-S916B/SM-S916B_P_C_M_HOME.tar.md5'',
           found_size = 2000000,
           found_filename = ''SM-S916B_P_C_M_HOME.tar.md5''\<rparr>"
  by code_simp

text \<open>With that candidate the bypass path downloads, uploads and writes the summary.\<close>

lemma bypass_success_example:
  "mainBypassDownload (sample_bypass_env\<lparr>head_probe := seventh_probe\<rparr>)
       ''EUX'' ''SM-S906B'' ''./downloads'' =
     [Mkdir ''./downloads'',
      Download ''http://cloud-neofussvr.sslcs.cdngc.net/NF_DownloadBinaryForMass.do?file=/neofus/firmware/EUX/SM-S916B/SM-S916B_P_C_M_HOME.tar.md5''
        ''./downloads/SM-S916B_P_C_M_HOME.tar.md5'',
      Upload ''./downloads/SM-S916B_P_C_M_HOME.tar.md5'',
      WriteSummary ''./downloads/SM-S916B_P_C_M_HOME.tar.md5_upload_summary.txt'']"
  by code_simp

lemma no_plausible_candidate:
  assumes "\<forall>u \<in> set (constructFirmwareUrls info). \<not> plausible (t u)"
  shows "findAccessibleFirmwareUrl lat t info = None"
proof -
  from assms have "find (\<lambda>u. plausible (t u)) (constructFirmwareUrls info) = None"
    by (simp add: find_None_iff)
  then show ?thesis
    by (simp add: findAccessibleFirmwareUrl_def probe_batches_find)
qed

text \<open>
  Claim C6: when the version resolves and no candidate generated for it satisfies the
  selection rule, the search finds nothing, the workflow fails with its error before any
  download, and \<open>mainBypassDownload\<close> logs that error and exits with code 1 without ever
  calling the upload.
\<close>

theorem no_mirror_no_upload:
  assumes v: "getLatestVersion (manifest env) region (transformed (transformModel model)) = Inr v"
    and none: "\<forall>u \<in> set (constructFirmwareUrls (bypass_info model region v)).
                 \<not> plausible (head_probe env u)"
  shows "findAccessibleFirmwareUrl (latency env) (head_probe env) (bypass_info model region v)
           = None \<and>
         directDownloadWorkflow env (bypass_info model region v) outputDir =
           ([], Inl (Error no_url_message)) \<and>
         mainBypassDownload env region model outputDir =
           (if existsSync env outputDir then [] else [Mkdir outputDir])
             @ [LogError no_url_message, Exit 1] \<and>
         (\<forall>p. Upload p \<notin> set (mainBypassDownload env region model outputDir))"
proof -
  have f: "findAccessibleFirmwareUrl (latency env) (head_probe env)
             (bypass_info model region v) = None"
    using none by (rule no_plausible_candidate)
  then have w: "directDownloadWorkflow env (bypass_info model region v) outputDir =
      ([], Inl (Error no_url_message))"
    by (simp add: directDownloadWorkflow_def no_url_message_def)
  have m: "mainBypassDownload env region model outputDir =
      (if existsSync env outputDir then [] else [Mkdir outputDir])
        @ [LogError no_url_message, Exit 1]"
    using v w by (simp add: mainBypassDownload_def Let_def bypass_info_def)
  show ?thesis
    using f w m by simp
qed

theorem no_mirror_no_upload_witness:
  "mainBypassDownload sample_bypass_env ''EUX'' ''SM-S906B'' ''./downloads'' =
     [Mkdir ''./downloads'', LogError no_url_message, Exit 1] \<and>
   head_probe sample_bypass_env
       (constructFirmwareUrls (bypass_info ''SM-S906B'' ''EUX'' (parse_latest ''P/C/M'')) ! 143)
     = Accessible (Num 500000) ''P_C_M.tar.md5''"
proof -
  have a: "getLatestVersion (manifest sample_bypass_env) ''EUX''
             (transformed (transformModel ''SM-S906B'')) = Inr (parse_latest ''P/C/M'')"
    by (simp add: getLatestVersion_def sample_bypass_env_def)
  have b: "\<forall>u \<in> set (constructFirmwareUrls (bypass_info ''SM-S906B'' ''EUX'' (parse_latest ''P/C/M''))).
             \<not> plausible (head_probe sample_bypass_env u)"
    by (simp add: sample_bypass_env_def)
  have c: "constructFirmwareUrls (bypass_info ''SM-S906B'' ''EUX'' (parse_latest ''P/C/M'')) ! 143
      = ''https://neofussvr.sslcs.cdngc.net/NF_DownloadBinaryForMass.do?file=/EUX/SM-S916B/P_C_M.tar.md5''"
    by code_simp
  show ?thesis
    using no_mirror_no_upload [OF a b, of "''./downloads''"] c
    by (simp add: sample_bypass_env_def)
qed

section \<open>Properties of the upload progress\<close>

lemma on_data_cases:
  "(fst c - lastProgressTime (throttle_of st) > 2000 \<and>
      lastProgressTime (throttle_of (on_data fs c st)) = fst c \<and>
      speed_times (printed (on_data fs c st)) = speed_times (printed st) @ [fst c])
   \<or> (lastProgressTime (throttle_of (on_data fs c st)) = lastProgressTime (throttle_of st) \<and>
      speed_times (printed (on_data fs c st)) = speed_times (printed st))"
  by (simp add: on_data_def onProgress_def Let_def speed_times_def)

lemma fold_on_data_spaced:
  "\<exists>ts. speed_times (printed (fold (on_data fs) chunks st)) = speed_times (printed st) @ ts
        \<and> spaced (lastProgressTime (throttle_of st)) ts"
proof (induction chunks arbitrary: st)
  case Nil
  show ?case by simp
next
  case (Cons c cs)
  obtain ts where ts:
    "speed_times (printed (fold (on_data fs) cs (on_data fs c st))) =
       speed_times (printed (on_data fs c st)) @ ts"
    "spaced (lastProgressTime (throttle_of (on_data fs c st))) ts"
    using Cons.IH [of "on_data fs c st"] by blast
  from on_data_cases [of c st fs] show ?case
  proof
    assume "fst c - lastProgressTime (throttle_of st) > 2000 \<and>
      lastProgressTime (throttle_of (on_data fs c st)) = fst c \<and>
      speed_times (printed (on_data fs c st)) = speed_times (printed st) @ [fst c]"
    with ts have
      "speed_times (printed (fold (on_data fs) (c # cs) st)) =
         speed_times (printed st) @ (fst c # ts)"
      "spaced (lastProgressTime (throttle_of st)) (fst c # ts)"
      by auto
    then show ?thesis by blast
  next
    assume "lastProgressTime (throttle_of (on_data fs c st)) = lastProgressTime (throttle_of st) \<and>
      speed_times (printed (on_data fs c st)) = speed_times (printed st)"
    with ts show ?thesis by auto
  qed
qed

lemma spaced_later: "spaced l ts \<Longrightarrow> t \<in> set ts \<Longrightarrow> t > l + 2000"
  by (induction ts arbitrary: l) fastforce+

lemma spaced_window:
  "spaced l ts \<Longrightarrow> length (filter (\<lambda>t. w \<le> t \<and> t \<le> w + 2000) ts) \<le> 1"
proof (induction ts arbitrary: l)
  case Nil
  then show ?case by simp
next
  case (Cons t ts)
  then have sp: "spaced t ts" by simp
  show ?case
  proof (cases "w \<le> t \<and> t \<le> w + 2000")
    case True
    have "filter (\<lambda>t. w \<le> t \<and> t \<le> w + 2000) ts = []"
      using spaced_later [OF sp] True by (fastforce simp: filter_empty_conv)
    with True show ?thesis by simp
  next
    case False
    with Cons.IH [OF sp] show ?thesis by auto
  qed
qed

lemma in_window_speed:
  "length (in_window is_speed w ls) =
   length (filter (\<lambda>t. w \<le> t \<and> t \<le> w + 2000) (speed_times ls))"
  unfolding in_window_def speed_times_def by (induction ls) auto

lemma progress_lines_fold:
  "length (filter (\<lambda>l. is_progress (snd l)) (printed (fold (on_data fs) chunks st))) =
   length (filter (\<lambda>l. is_progress (snd l)) (printed st)) + length chunks"
proof (induction chunks arbitrary: st)
  case Nil
  show ?case by simp
next
  case (Cons c cs)
  have "length (filter (\<lambda>l. is_progress (snd l)) (printed (on_data fs c st))) =
        length (filter (\<lambda>l. is_progress (snd l)) (printed st)) + 1"
    by (simp add: on_data_def onProgress_def Let_def)
  with Cons.IH [of "on_data fs c st"] show ?case by simp
qed

text \<open>
  Claim C8, amended: whatever the chunks and the clock values at which they are handled,
  at most one speed line is printed in any window of 2000 ms. The progress line of
  \<open>uploadToGofile\<close> is not throttled: it is printed once for every chunk.
\<close>

theorem speed_line_throttled:
  "length (in_window is_speed w (upload_lines t0 fileSize chunks)) \<le> 1 \<and>
   length (filter (\<lambda>l. is_progress (snd l)) (upload_lines t0 fileSize chunks)) = length chunks"
proof -
  obtain ts where "speed_times (upload_lines t0 fileSize chunks) = ts" "spaced t0 ts"
    using fold_on_data_spaced [of fileSize chunks
        "\<lparr>uploadedBytes = 0,
          throttle_of = \<lparr>lastProgressTime = t0, lastUploadedBytes = 0\<rparr>,
          printed = []\<rparr>"]
    by (auto simp: upload_lines_def speed_times_def)
  then have "length (in_window is_speed w (upload_lines t0 fileSize chunks)) \<le> 1"
    using spaced_window [of t0 ts w] by (simp add: in_window_speed)
  moreover have "length (filter (\<lambda>l. is_progress (snd l)) (upload_lines t0 fileSize chunks))
      = length chunks"
    using progress_lines_fold [of fileSize chunks
        "\<lparr>uploadedBytes = 0,
          throttle_of = \<lparr>lastProgressTime = t0, lastUploadedBytes = 0\<rparr>,
          printed = []\<rparr>"]
    by (simp add: upload_lines_def)
  ultimately show ?thesis by simp
qed

text \<open>
  The claim as stated fails: two chunks handled 1 ms apart print two progress lines in
  the same window.
\<close>

theorem progress_line_per_chunk:
  "in_window is_progress 0 (upload_lines 0 10 [(1, 5), (2, 5)]) =
     [(1, ProgressLine 5 10), (2, ProgressLine 10 10)]"
  by (simp add: in_window_def upload_lines_def on_data_def onProgress_def Let_def)

end
